theory Spec2Isabelle
  imports
    Main
    "HOL-Library.Char_ord"
    "HOL-Library.List_Lexorder"
    "HOL-Library.Product_Lexorder"
    "HOL-Library.Multiset"
begin

unbundle bit_operations_syntax

section \<open>Python values used by sftp.py\<close>

text \<open>
  A Python \<open>str\<close> is modelled as a \<open>string\<close> (a list of bytes, UTF-8). The four
  characters the shell treats specially are ASCII, so they never occur inside a multi-byte
  sequence.
\<close>

abbreviation BACKSLASH :: char where "BACKSLASH \<equiv> CHR 0x5C"
abbreviation DQUOTE :: char where "DQUOTE \<equiv> CHR 0x22"
abbreviation SQUOTE :: char where "SQUOTE \<equiv> CHR 0x27"
abbreviation SPACE :: char where "SPACE \<equiv> CHR 0x20"

text \<open>
  The exceptions that can travel through \<open>FTPClient\<close>. \<open>ValueError\<close> and \<open>IOError\<close> carry
  their message (\<open>str(err)\<close>), \<open>UnboundLocalError\<close> the name of the local variable.
\<close>

datatype error =
    ValueError string
  | UnboundLocalError string
  | TypeError
  | IndexError
  | IOError string
  | KeyboardInterrupt

text \<open>Decimal rendering of a non-negative integer, as an f-string renders \<open>{index}\<close>.\<close>

definition digit_char :: "nat \<Rightarrow> char" where
  "digit_char d = char_of (48 + d)"

fun str_nat :: "nat \<Rightarrow> string" where
  "str_nat n = (if n < 10 then [digit_char n] else str_nat (n div 10) @ [digit_char (n mod 10)])"

declare str_nat.simps [simp del]

text \<open>\<open>s.split(' ')\<close>: the pieces between single spaces; never the empty list.\<close>

fun split_space :: "string \<Rightarrow> string list" where
  "split_space [] = [[]]"
| "split_space (c # cs) =
     (if c = SPACE then [] # split_space cs
      else (case split_space cs of
              [] \<Rightarrow> [[c]]
            | w # ws \<Rightarrow> (c # w) # ws))"

text \<open>\<open>sep.join(xs)\<close>.\<close>

fun join :: "string \<Rightarrow> string list \<Rightarrow> string" where
  "join sep [] = []"
| "join sep [x] = x"
| "join sep (x # y # ys) = x @ sep @ join sep (y # ys)"

section \<open>\<open>FTPClient._parse_args\<close>\<close>

text \<open>
  The local variables of \<open>_parse_args\<close>: \<open>parsed\<close>, \<open>arg\<close>, \<open>escaping\<close>, \<open>quote\<close>
  (\<open>None\<close> or the opening quote character) and \<open>index\<close>.
\<close>

record scan_state =
  parsed :: "string list"
  arg :: string
  escaping :: bool
  quote :: "char option"
  index :: nat

definition scan_init :: scan_state where
  "scan_init = \<lparr>parsed = [], arg = [], escaping = False, quote = None, index = 0\<rparr>"

text \<open>One pass through the body of \<open>for char in list(args)\<close>.\<close>

definition parse_args_step :: "char \<Rightarrow> scan_state \<Rightarrow> scan_state" where
  "parse_args_step c s0 =
     (let s = s0\<lparr>index := index s0 + 1\<rparr> in
      if escaping s then s\<lparr>arg := arg s @ [c], escaping := False\<rparr>
      else if c = BACKSLASH then s\<lparr>escaping := True\<rparr>
      else if quote s \<noteq> None \<and> Some c = quote s then s\<lparr>quote := None\<rparr>
      else if quote s = None \<and> (c = DQUOTE \<or> c = SQUOTE) then s\<lparr>quote := Some c\<rparr>
      else if quote s = None \<and> c = SPACE then
        (if arg s \<noteq> [] then s\<lparr>parsed := parsed s @ [arg s], arg := []\<rparr>
         else s\<lparr>arg := []\<rparr>)
      else s\<lparr>arg := arg s @ [c]\<rparr>)"

fun parse_args_loop :: "string \<Rightarrow> scan_state \<Rightarrow> scan_state" where
  "parse_args_loop [] s = s"
| "parse_args_loop (c # cs) s = parse_args_loop cs (parse_args_step c s)"

text \<open>The statements after the loop: the two \<open>raise\<close>s, the last \<open>append\<close>, the \<open>return\<close>.\<close>

definition parse_args_end :: "scan_state \<Rightarrow> error + string list" where
  "parse_args_end s =
     (if quote s \<noteq> None then
        Inl (ValueError (''Unterminated quote at index '' @ str_nat (index s)))
      else if escaping s then
        Inl (ValueError (''Escape sequence is not followed by a character at index ''
                          @ str_nat (index s)))
      else if arg s \<noteq> [] then Inr (parsed s @ [arg s])
      else Inr (parsed s))"

definition parse_args :: "string \<Rightarrow> error + string list" where
  "parse_args args = parse_args_end (parse_args_loop args scan_init)"


section \<open>The tokenizer as the specification words it\<close>

text \<open>
  The reference scanner of the specification (4.1): a token buffer, an escaping flag and
  an active quote that is none, single or double, with the six rules in their priority
  order and the end-of-input handling. It is written from the specification, to be compared
  with \<open>parse_args\<close> above.
\<close>

datatype active_quote = NoQuote | SingleQuote | DoubleQuote

datatype tokenizer_error = UnterminatedQuote | DanglingEscape

record tokenizer_state =
  tokens :: "string list"
  buffer :: string
  escape_flag :: bool
  active :: active_quote

definition tokenizer_init :: tokenizer_state where
  "tokenizer_init = \<lparr>tokens = [], buffer = [], escape_flag = False, active = NoQuote\<rparr>"

definition quote_kind :: "char \<Rightarrow> active_quote" where
  "quote_kind c =
     (if c = SQUOTE then SingleQuote else if c = DQUOTE then DoubleQuote else NoQuote)"

definition tokenizer_rule :: "char \<Rightarrow> tokenizer_state \<Rightarrow> tokenizer_state" where
  "tokenizer_rule c t =
     (if escape_flag t then t\<lparr>buffer := buffer t @ [c], escape_flag := False\<rparr>
      else if c = BACKSLASH then t\<lparr>escape_flag := True\<rparr>
      else if active t \<noteq> NoQuote \<and> quote_kind c = active t then t\<lparr>active := NoQuote\<rparr>
      else if active t = NoQuote \<and> quote_kind c \<noteq> NoQuote then t\<lparr>active := quote_kind c\<rparr>
      else if active t = NoQuote \<and> c = SPACE then
        (if buffer t \<noteq> [] then t\<lparr>tokens := tokens t @ [buffer t], buffer := []\<rparr> else t)
      else t\<lparr>buffer := buffer t @ [c]\<rparr>)"

definition tokenizer_end :: "tokenizer_state \<Rightarrow> tokenizer_error + string list" where
  "tokenizer_end t =
     (if active t \<noteq> NoQuote then Inl UnterminatedQuote
      else if escape_flag t then Inl DanglingEscape
      else Inr (if buffer t \<noteq> [] then tokens t @ [buffer t] else tokens t))"

definition tokenize_spec :: "string \<Rightarrow> tokenizer_error + string list" where
  "tokenize_spec s = tokenizer_end (fold tokenizer_rule s tokenizer_init)"

text \<open>
  The \<open>ValueError\<close> that \<open>_parse_args\<close> raises for each of the specification's two
  error kinds, at a given value of \<open>index\<close>.
\<close>

definition message_of :: "tokenizer_error \<Rightarrow> nat \<Rightarrow> error" where
  "message_of e n =
     (case e of
        UnterminatedQuote \<Rightarrow> ValueError (''Unterminated quote at index '' @ str_nat n)
      | DanglingEscape \<Rightarrow>
          ValueError (''Escape sequence is not followed by a character at index ''
                       @ str_nat n))"

text \<open>The link between the two state spaces.\<close>

definition quote_ok :: "scan_state \<Rightarrow> bool" where
  "quote_ok s = (quote s = None \<or> quote s = Some DQUOTE \<or> quote s = Some SQUOTE)"

definition abs_state :: "scan_state \<Rightarrow> tokenizer_state" where
  "abs_state s =
     \<lparr>tokens = parsed s, buffer = arg s, escape_flag = escaping s,
      active = (case quote s of None \<Rightarrow> NoQuote | Some q \<Rightarrow> quote_kind q)\<rparr>"

section \<open>Directory entries and \<open>FTPClient.ls\<close>\<close>

text \<open>
  An \<open>SFTPAttributes\<close> entry as the shell reads it: \<open>filename\<close> and \<open>st_mode\<close>, which is
  an integer or \<open>None\<close>.
\<close>

record entry =
  filename :: string
  st_mode :: "nat option"

text \<open>
  \<open>stat.S_ISDIR\<close> and \<open>stat.S_ISREG\<close> of the standard library:
  \<open>S_IFMT(mode) = mode & 0o170000\<close>, compared with \<open>0o040000\<close> and \<open>0o100000\<close>. Applied to
  \<open>None\<close> they raise \<open>TypeError\<close>, which is the \<open>None\<close> branch of \<open>ls_sort\<close>.
\<close>

definition S_IFMT :: "nat \<Rightarrow> nat" where
  "S_IFMT mode = mode AND 61440"

definition S_ISDIR :: "nat \<Rightarrow> bool" where
  "S_ISDIR mode = (S_IFMT mode = 16384)"

definition S_ISREG :: "nat \<Rightarrow> bool" where
  "S_ISREG mode = (S_IFMT mode = 32768)"

definition ls_sort :: "entry \<Rightarrow> error + nat \<times> string" where
  "ls_sort item =
     (case st_mode item of
        None \<Rightarrow> Inl TypeError
      | Some m \<Rightarrow>
          if S_ISDIR m then Inr (1, filename item)
          else if S_ISREG m then Inr (2, filename item)
          else Inr (3, filename item))"

text \<open>
  \<open>sorted(xs, key=f)\<close>: the key of every element is computed first, in order, and the first
  exception ends the call; then the elements are sorted by their keys, stably.
\<close>

fun sort_keys :: "('a \<Rightarrow> error + 'k) \<Rightarrow> 'a list \<Rightarrow> error + ('k \<times> 'a) list" where
  "sort_keys key [] = Inr []"
| "sort_keys key (x # xs) =
     (case key x of
        Inl e \<Rightarrow> Inl e
      | Inr k \<Rightarrow>
          (case sort_keys key xs of
             Inl e \<Rightarrow> Inl e
           | Inr kxs \<Rightarrow> Inr ((k, x) # kxs)))"

definition sorted_by :: "('a \<Rightarrow> error + 'k::linorder) \<Rightarrow> 'a list \<Rightarrow> error + 'a list" where
  "sorted_by key xs =
     (case sort_keys key xs of
        Inl e \<Rightarrow> Inl e
      | Inr kxs \<Rightarrow> Inr (map snd (sort_key fst kxs)))"

text \<open>\<open>entry.st_mode or 0\<close>.\<close>

definition mode_or_0 :: "nat option \<Rightarrow> nat" where
  "mode_or_0 m = (case m of None \<Rightarrow> 0 | Some n \<Rightarrow> if n = 0 then 0 else n)"

text \<open>The two emoji markers, as their UTF-8 bytes (U+1F4C1 and U+1F4C4).\<close>

definition FOLDER :: string where
  "FOLDER = [CHR 0xF0, CHR 0x9F, CHR 0x93, CHR 0x81]"

definition PAGE :: string where
  "PAGE = [CHR 0xF0, CHR 0x9F, CHR 0x93, CHR 0x84]"

definition symbol :: "entry \<Rightarrow> string" where
  "symbol e =
     (if S_ISDIR (mode_or_0 (st_mode e)) then FOLDER
      else if S_ISREG (mode_or_0 (st_mode e)) then PAGE
      else ''?'')"

definition ls_line :: "entry \<Rightarrow> string" where
  "ls_line e = symbol e @ '' '' @ filename e"

text \<open>
  The body of \<open>ls\<close> on the listing that \<open>listdir_attr\<close> returned: the lines printed, in
  order, and the exception that ended the call, if any. \<open>sorted\<close> runs before the first
  \<open>print\<close>, so a failing key leaves nothing printed.
\<close>

definition ls_listing :: "entry list \<Rightarrow> string list \<times> error option" where
  "ls_listing listing =
     (case sorted_by ls_sort listing of
        Inl e \<Rightarrow> ([], Some e)
      | Inr es \<Rightarrow> (map ls_line es, None))"


section \<open>The session capability and \<open>FTPClient.start_interactive\<close>\<close>

text \<open>
  A call to a collaborator (the SFTP client, the prompt) either returns a value or raises.
  A \<open>session\<close> fixes what each collaborator does during one iteration of the loop; the
  loop runs against a list of them, one per iteration. Every call can raise
  \<open>KeyboardInterrupt\<close>, which is how an interrupt reaches the loop body.
\<close>

datatype 'a response = Returns 'a | Raises error

record session =
  getcwd :: "string option response"
  prompt :: "string response"
  listdir_attr :: "entry list response"
  chdir :: "string \<Rightarrow> unit response"
  get :: "string \<Rightarrow> string \<Rightarrow> unit response"

text \<open>What the loop does to the outside, in order.\<close>

datatype event =
    Call_getcwd
  | Call_prompt
  | Call_listdir_attr
  | Call_chdir string
  | Call_get string string
  | Print string
  | Call_close

text \<open>
  The attributes \<open>_closed\<close> and \<open>_pwd\<close>, and the local variable \<open>fname\<close> of
  \<open>start_interactive\<close>, which lives across iterations and is unbound (\<open>None\<close>) until its
  first assignment.
\<close>

record loop_state =
  closed :: bool
  pwd :: string
  fname :: "string option"

text \<open>\<open>ls\<close>: \<open>listdir_attr\<close>, then the sorted listing printed.\<close>

definition ls :: "session \<Rightarrow> event list \<times> error option" where
  "ls env =
     (case listdir_attr env of
        Raises e \<Rightarrow> ([Call_listdir_attr], Some e)
      | Returns listing \<Rightarrow>
          (case ls_listing listing of
             (out, err) \<Rightarrow> (Call_listdir_attr # map Print out, err)))"

text \<open>
  \<open>_execute_safely(cmd)\<close>, with \<open>cmd\<close> given by the events of its call and its response:
  an \<open>IOError\<close> is printed and swallowed, any other exception travels on.
\<close>

fun execute_safely :: "event list \<times> 'a response \<Rightarrow> event list \<times> (error + bool \<times> 'a option)" where
  "execute_safely (evs, Returns v) = (evs, Inr (True, Some v))"
| "execute_safely (evs, Raises (IOError m)) = (evs @ [Print m], Inr (False, None))"
| "execute_safely (evs, Raises e) = (evs, Inl e)"

text \<open>
  \<open>download_file\<close>: the transfer of \<open>'/'.join([self._pwd, fname])\<close> to \<open>save_path\<close>; an
  \<open>IOError\<close> is printed and swallowed. The progress display is left out.
\<close>

fun download_result :: "unit response \<Rightarrow> event list \<times> error option" where
  "download_result (Returns v) = ([], None)"
| "download_result (Raises (IOError m)) = ([Print m], None)"
| "download_result (Raises e) = ([], Some e)"

definition download_file :: "session \<Rightarrow> string \<Rightarrow> string \<Rightarrow> string \<Rightarrow> event list \<times> error option" where
  "download_file env wd name save_path =
     (let remote = join ''/'' [wd, name] in
      case download_result (get env remote save_path) of
        (evs, err) \<Rightarrow> (Call_get remote save_path # evs, err))"

definition usage :: string where
  "usage = ''invalid command format, use '' @ [DQUOTE] @ ''get <file> [save_location]'' @ [DQUOTE]"

text \<open>
  The branch of \<open>cd\<close>: with an argument, \<open>chdir\<close> on \<open>'/'.join([self._pwd, args[0]])\<close>
  under \<open>_execute_safely\<close>; without one, nothing. Neither assigns \<open>_pwd\<close>.
\<close>

definition cd_command ::
    "session \<Rightarrow> string list \<Rightarrow> loop_state \<Rightarrow> loop_state \<times> event list \<times> error option" where
  "cd_command env args st =
     (if length args > 0 then
        (let path = join ''/'' [pwd st, args ! 0] in
         case execute_safely ([Call_chdir path], chdir env path) of
           (evs, Inl e) \<Rightarrow> (st, evs, Some e)
         | (evs, Inr r) \<Rightarrow> (st, evs, None))
      else (st, [], None))"

text \<open>
  The branch of \<open>get\<close> and \<open>download\<close>. With one argument the right-hand side
  \<open>args[0], f'./{fname}'\<close> is evaluated before \<open>fname\<close> is assigned, so it reads the value
  \<open>fname\<close> had before, and raises \<open>UnboundLocalError\<close> when it had none.
\<close>

definition get_command ::
    "session \<Rightarrow> string list \<Rightarrow> loop_state \<Rightarrow> loop_state \<times> event list \<times> error option" where
  "get_command env args st =
     (if \<not> (1 \<le> length args \<and> length args \<le> 2) then (st, [Print usage], None)
      else if length args = 2 then
        (case download_file env (pwd st) (args ! 0) (args ! 1) of
           (evs, err) \<Rightarrow> (st\<lparr>fname := Some (args ! 0)\<rparr>, evs, err))
      else
        (case fname st of
           None \<Rightarrow> (st, [], Some (UnboundLocalError ''fname''))
         | Some old \<Rightarrow>
             (case download_file env (pwd st) (args ! 0) (''./'' @ old) of
                (evs, err) \<Rightarrow> (st\<lparr>fname := Some (args ! 0)\<rparr>, evs, err))))"

text \<open>The \<open>if\<close>/\<open>elif\<close> chain on \<open>cmd\<close>.\<close>

definition dispatch ::
    "session \<Rightarrow> string \<Rightarrow> string list \<Rightarrow> loop_state \<Rightarrow> loop_state \<times> event list \<times> error option" where
  "dispatch env cmd args st =
     (if cmd \<in> set [''q'', ''quit'', ''exit''] then (st\<lparr>closed := True\<rparr>, [], None)
      else if cmd = ''ls'' then (case ls env of (evs, err) \<Rightarrow> (st, evs, err))
      else if cmd = ''cd'' then cd_command env args st
      else if cmd \<in> set [''get'', ''download''] then get_command env args st
      else (st, [Print ''Unknown command''], None))"

text \<open>\<open>x or ''\<close> for the result of \<open>getcwd\<close>.\<close>

definition or_empty :: "string option \<Rightarrow> string" where
  "or_empty r = (case r of None \<Rightarrow> [] | Some s \<Rightarrow> if s = [] then [] else s)"

text \<open>
  \<open>self._parse_args(' '.join(line[1:])) if len(line) > 1 else []\<close>.
\<close>

definition line_args :: "string list \<Rightarrow> error + string list" where
  "line_args line = (if length line > 1 then parse_args (join '' '' (tl line)) else Inr [])"

text \<open>
  The body of the \<open>try\<close>: the state after it, the events it caused and the exception that
  left it, if any.
\<close>

definition loop_body :: "session \<Rightarrow> loop_state \<Rightarrow> loop_state \<times> event list \<times> error option" where
  "loop_body env st =
     (case getcwd env of
        Raises e \<Rightarrow> (st, [Call_getcwd], Some e)
      | Returns cwd \<Rightarrow>
          (let st1 = st\<lparr>pwd := or_empty cwd\<rparr> in
           case prompt env of
             Raises e \<Rightarrow> (st1, [Call_getcwd, Call_prompt], Some e)
           | Returns text \<Rightarrow>
               (case split_space text of
                  [] \<Rightarrow> (st1, [Call_getcwd, Call_prompt], Some IndexError)
                | cmd # rest \<Rightarrow>
                    (case line_args (cmd # rest) of
                       Inl e \<Rightarrow> (st1, [Call_getcwd, Call_prompt], Some e)
                     | Inr args \<Rightarrow>
                         (case dispatch env cmd args st1 of
                            (st2, evs, err) \<Rightarrow>
                              (st2, [Call_getcwd, Call_prompt] @ evs, err))))))"

text \<open>
  How a call of \<open>start_interactive\<close> stands after the sessions given: it returned (after
  \<open>self._client.close()\<close>), an exception left it, or it is at the top of the loop waiting
  for the next iteration's collaborators.
\<close>

datatype outcome = Returned | Raised error | Running

text \<open>
  The \<open>while not self._closed\<close> loop. Only \<open>KeyboardInterrupt\<close> is caught: it sets
  \<open>_closed\<close> and breaks. Any other exception leaves \<open>start_interactive\<close> at once, so the
  \<open>close()\<close> after the loop is not reached.
\<close>

fun start_interactive :: "session list \<Rightarrow> loop_state \<Rightarrow> loop_state \<times> event list \<times> outcome" where
  "start_interactive [] st =
     (if closed st then (st, [Call_close], Returned) else (st, [], Running))"
| "start_interactive (env # envs) st =
     (if closed st then (st, [Call_close], Returned)
      else
        (case loop_body env st of
           (st1, evs, None) \<Rightarrow>
             (case start_interactive envs st1 of
                (st2, evs2, out) \<Rightarrow> (st2, evs @ evs2, out))
         | (st1, evs, Some e) \<Rightarrow>
             if e = KeyboardInterrupt then (st1\<lparr>closed := True\<rparr>, evs @ [Call_close], Returned)
             else (st1, evs, Raised e)))"

text \<open>The state \<open>__init__\<close> leaves, before the first iteration.\<close>

definition client_init :: loop_state where
  "client_init = \<lparr>closed = False, pwd = [], fname = None\<rparr>"

section \<open>\<open>CommandCompleter\<close>\<close>

text \<open>
  A \<open>Document\<close> as the completer reads it: \<open>current_line\<close> and the result of
  \<open>get_word_before_cursor()\<close>.
\<close>

record document =
  current_line :: string
  word_before_cursor :: string

record completion =
  text' :: string
  start_position :: int
  display :: string
  display_meta :: string

record completer =
  last_word_count :: int
  word_cache :: "string list"

definition completer_init :: completer where
  "completer_init = \<lparr>last_word_count = - 1, word_cache = []\<rparr>"

text \<open>
  \<open>str.lower\<close> of the standard library is a parameter \<open>str_lower\<close> of the completer's
  functions. \<open>ascii_lower\<close> is the instance the examples use: it lowers the ASCII letters.
\<close>

definition lower_char :: "char \<Rightarrow> char" where
  "lower_char c = (if CHR ''A'' \<le> c \<and> c \<le> CHR ''Z'' then char_of (of_char c + (32::nat)) else c)"

definition ascii_lower :: "string \<Rightarrow> string" where
  "ascii_lower s = map lower_char s"

text \<open>The substring test \<open>x in y\<close>.\<close>

fun starts_with :: "string \<Rightarrow> string \<Rightarrow> bool" where
  "starts_with [] s = True"
| "starts_with (p # ps) [] = False"
| "starts_with (p # ps) (c # cs) = (p = c \<and> starts_with ps cs)"

fun contains :: "string \<Rightarrow> string \<Rightarrow> bool" where
  "contains s [] = starts_with s []"
| "contains s (c # cs) = (starts_with s (c # cs) \<or> contains s cs)"

text \<open>
  The \<open>if\<close> statement of \<open>get_completions\<close> (lines 23 to 25). The word source \<open>word_gen\<close>
  is a parameter; like any call it returns its list or raises. The assignments to
  \<open>_word_cache\<close> and \<open>_last_word_count\<close> come after the call, so when it raises neither is
  made. The result is the completer after the statement, the documents \<open>word_gen\<close> was
  called with (none or one) and the exception raised, if any.
\<close>

definition refresh_cache ::
    "(document \<Rightarrow> error + string list) \<Rightarrow> document \<Rightarrow> completer
      \<Rightarrow> completer \<times> document list \<times> error option" where
  "refresh_cache word_gen doc c =
     (let line_words = split_space (current_line doc) in
      if int (length line_words) \<noteq> last_word_count c then
        (case word_gen doc of
           Inl e \<Rightarrow> (c, [doc], Some e)
         | Inr ws \<Rightarrow>
             (c\<lparr>word_cache := ws, last_word_count := int (length line_words)\<rparr>, [doc], None))
      else (c, [], None))"

text \<open>The \<open>for\<close> loop of \<open>get_completions\<close> over \<open>words = self._word_cache\<close>.\<close>

definition yield_completions ::
    "(string \<Rightarrow> string) \<Rightarrow> string list \<Rightarrow> document \<Rightarrow> completion list" where
  "yield_completions str_lower wrds doc =
     (let wbc = str_lower (word_before_cursor doc) in
      map (\<lambda>a. \<lparr>text' = a, start_position = - int (length wbc), display = a,
                  display_meta = []\<rparr>)
        (filter (\<lambda>a. contains wbc (str_lower a)) wrds))"

text \<open>
  One run of the generator \<open>get_completions\<close>: the completer after the run, the documents
  \<open>word_gen\<close> was called with during it, and the completions yielded or the exception
  that ended the run.
\<close>

definition get_completions ::
    "(string \<Rightarrow> string) \<Rightarrow> (document \<Rightarrow> error + string list) \<Rightarrow> document \<Rightarrow> completer
      \<Rightarrow> completer \<times> document list \<times> (error + completion list)" where
  "get_completions str_lower word_gen doc c =
     (case refresh_cache word_gen doc c of
        (c1, calls, Some e) \<Rightarrow> (c1, calls, Inl e)
      | (c1, calls, None) \<Rightarrow>
          (c1, calls, Inr (yield_completions str_lower (word_cache c1) doc)))"

text \<open>
  A sequence of completion requests on one completer: for each request, the calls of the
  word source and the outcome, and the completer left at the end.
\<close>

fun requests ::
    "(string \<Rightarrow> string) \<Rightarrow> (document \<Rightarrow> error + string list) \<Rightarrow> document list \<Rightarrow> completer
      \<Rightarrow> (document list \<times> (error + completion list)) list \<times> completer" where
  "requests str_lower word_gen [] c = ([], c)"
| "requests str_lower word_gen (doc # docs) c =
     (case get_completions str_lower word_gen doc c of
        (c1, calls, out) \<Rightarrow>
          (case requests str_lower word_gen docs c1 of
             (rs, c2) \<Rightarrow> ((calls, out) # rs, c2)))"

text \<open>
  Which of the specification's two tokenizer errors a result of \<open>_parse_args\<close> is, read
  from the message of the \<open>ValueError\<close>.
\<close>

fun error_kind :: "error + string list \<Rightarrow> tokenizer_error option" where
  "error_kind (Inl (ValueError m)) =
     (if starts_with ''Unterminated quote'' m then Some UnterminatedQuote
      else if starts_with ''Escape sequence is not followed by a character'' m
        then Some DanglingEscape
      else None)"
| "error_kind r = None"

text \<open>The number of pieces of the request's line, \<open>len(line_words)\<close>.\<close>

definition word_count :: "document \<Rightarrow> nat" where
  "word_count doc = length (split_space (current_line doc))"


section \<open>Collapsing spaces\<close>

text \<open>
  An input is plain when it has no quote character and no escape character.
\<close>

definition plain :: "string \<Rightarrow> bool" where
  "plain s = (\<forall>c \<in> set s. c \<noteq> BACKSLASH \<and> c \<noteq> DQUOTE \<and> c \<noteq> SQUOTE)"

text \<open>
  The whitespace-collapsed form of a string, defined on its characters: every run of
  spaces becomes one space (\<open>squeeze\<close>), then the spaces at both ends are removed
  (\<open>strip_spaces\<close>).
\<close>

fun squeeze :: "string \<Rightarrow> string" where
  "squeeze (a # b # cs) =
     (if a = SPACE \<and> b = SPACE then squeeze (b # cs) else a # squeeze (b # cs))"
| "squeeze cs = cs"

definition rstrip :: "string \<Rightarrow> string" where
  "rstrip s = rev (dropWhile (\<lambda>c. c = SPACE) (rev s))"

definition strip_spaces :: "string \<Rightarrow> string" where
  "strip_spaces s = rstrip (dropWhile (\<lambda>c. c = SPACE) s)"

definition collapse_spaces :: "string \<Rightarrow> string" where
  "collapse_spaces s = strip_spaces (squeeze s)"

text \<open>The non-empty pieces of \<open>s.split(' ')\<close>.\<close>

definition pieces :: "string \<Rightarrow> string list" where
  "pieces s = filter (\<lambda>w. w \<noteq> []) (split_space s)"

section \<open>The order of a listing\<close>

text \<open>
  The kind of an entry as the specification has it, and the composite order of 4.4a:
  directories before regular files before other kinds, and within one kind the file names
  ascending, compared character by character (case-sensitive).
\<close>

datatype kind = Directory | Regular | Other

definition kind_of :: "entry \<Rightarrow> kind" where
  "kind_of e =
     (if S_ISDIR (mode_or_0 (st_mode e)) then Directory
      else if S_ISREG (mode_or_0 (st_mode e)) then Regular
      else Other)"

fun kind_rank :: "kind \<Rightarrow> nat" where
  "kind_rank Directory = 0"
| "kind_rank Regular = 1"
| "kind_rank Other = 2"

definition listed_before :: "entry \<Rightarrow> entry \<Rightarrow> bool" where
  "listed_before a b =
     (kind_rank (kind_of a) < kind_rank (kind_of b)
      \<or> (kind_rank (kind_of a) = kind_rank (kind_of b) \<and> filename a \<le> filename b))"

text \<open>The key \<open>_ls_sort\<close> returns for an entry whose mode is defined.\<close>

definition ls_key :: "entry \<Rightarrow> nat \<times> string" where
  "ls_key e =
     (if S_ISDIR (mode_or_0 (st_mode e)) then (1, filename e)
      else if S_ISREG (mode_or_0 (st_mode e)) then (2, filename e)
      else (3, filename e))"

section \<open>A session for examples\<close>

text \<open>
  Collaborators that all succeed: the remote directory is \<open>/home\<close>, it is empty, and the
  operator types \<open>ls\<close>. Examples change the field they are about.
\<close>

definition example_session :: session where
  "example_session =
     \<lparr>getcwd = Returns (Some ''/home''),
      prompt = Returns ''ls'',
      listdir_attr = Returns [],
      chdir = (\<lambda>path. Returns ()),
      get = (\<lambda>remote save_path. Returns ())\<rparr>"

section \<open>Properties of the tokenizer\<close>

lemma quote_ok_step: "quote_ok s \<Longrightarrow> quote_ok (parse_args_step c s)"
  by (simp add: quote_ok_def parse_args_step_def Let_def)

lemma abs_state_step:
  "quote_ok s \<Longrightarrow> abs_state (parse_args_step c s) = tokenizer_rule c (abs_state s)"
  unfolding quote_ok_def
  by (elim disjE)
    (simp_all add: parse_args_step_def tokenizer_rule_def abs_state_def Let_def quote_kind_def)

lemma index_step: "index (parse_args_step c s) = Suc (index s)"
  by (simp add: parse_args_step_def Let_def)

lemma index_loop: "index (parse_args_loop cs s) = index s + length cs"
  by (induction cs arbitrary: s) (simp_all add: index_step)

lemma quote_ok_loop: "quote_ok s \<Longrightarrow> quote_ok (parse_args_loop cs s)"
  by (induction cs arbitrary: s) (simp_all add: quote_ok_step)

lemma abs_state_loop:
  "quote_ok s \<Longrightarrow> abs_state (parse_args_loop cs s) = fold tokenizer_rule cs (abs_state s)"
  by (induction cs arbitrary: s) (simp_all add: quote_ok_step abs_state_step)

lemma parse_args_end_abs:
  "quote_ok s \<Longrightarrow>
   parse_args_end s =
     (case tokenizer_end (abs_state s) of
        Inl e \<Rightarrow> Inl (message_of e (index s))
      | Inr ts \<Rightarrow> Inr ts)"
  unfolding quote_ok_def
  by (elim disjE)
    (simp_all add: parse_args_end_def tokenizer_end_def abs_state_def message_of_def
      quote_kind_def)

lemma abs_state_init: "abs_state scan_init = tokenizer_init"
  by (simp add: abs_state_def scan_init_def tokenizer_init_def)

lemma quote_ok_init: "quote_ok scan_init"
  by (simp add: quote_ok_def scan_init_def)

lemma parse_args_tokenize_spec:
  "parse_args s =
     (case tokenize_spec s of
        Inl e \<Rightarrow> Inl (message_of e (length s))
      | Inr ts \<Rightarrow> Inr ts)"
proof -
  have ok: "quote_ok (parse_args_loop s scan_init)"
    by (rule quote_ok_loop) (rule quote_ok_init)
  have ix: "index (parse_args_loop s scan_init) = length s"
    by (simp add: index_loop scan_init_def)
  have ab: "abs_state (parse_args_loop s scan_init) = fold tokenizer_rule s tokenizer_init"
    using abs_state_loop [OF quote_ok_init] by (simp add: abs_state_init)
  show ?thesis
    unfolding parse_args_def tokenize_spec_def
    by (simp add: parse_args_end_abs [OF ok] ix ab cong: sum.case_cong)
qed

text \<open>
  C4. For every input string, \<open>_parse_args\<close> gives what the specification's character-scan
  state machine gives: the same tokens when it succeeds, and when it fails the
  \<open>ValueError\<close> of the same kind, raised with \<open>index\<close> equal to the length of the input.
  In particular \<open>ab"c d"e\<close> is the one token \<open>abc de\<close> (a quote opens and closes inside a
  token); \<open>a\<close>, backslash, space, \<open>b\<close> is the one token \<open>a b\<close> (escape outside quotes);
  \<open>a\<close>, backslash, double quote, \<open>b\<close> between double quotes is the one token \<open>a"b\<close>
  (escape inside quotes); and the empty input has no tokens.
\<close>

theorem parse_args_is_reference_scanner:
  "parse_args s =
     (case tokenize_spec s of
        Inl e \<Rightarrow> Inl (message_of e (length s))
      | Inr ts \<Rightarrow> Inr ts)
   \<and> parse_args (''ab'' @ [DQUOTE] @ ''c d'' @ [DQUOTE] @ ''e'') = Inr [''abc de'']
   \<and> parse_args (''a'' @ [BACKSLASH] @ '' b'') = Inr [''a b'']
   \<and> parse_args ([DQUOTE] @ ''a'' @ [BACKSLASH, DQUOTE] @ ''b'' @ [DQUOTE])
       = Inr [''a'' @ [DQUOTE] @ ''b'']
   \<and> parse_args [] = Inr []"
proof (intro conjI)
  show "parse_args s =
     (case tokenize_spec s of
        Inl e \<Rightarrow> Inl (message_of e (length s))
      | Inr ts \<Rightarrow> Inr ts)"
    by (rule parse_args_tokenize_spec)
  show "parse_args (''ab'' @ [DQUOTE] @ ''c d'' @ [DQUOTE] @ ''e'') = Inr [''abc de'']"
    by code_simp
  show "parse_args (''a'' @ [BACKSLASH] @ '' b'') = Inr [''a b'']"
    by code_simp
  show "parse_args ([DQUOTE] @ ''a'' @ [BACKSLASH, DQUOTE] @ ''b'' @ [DQUOTE])
       = Inr [''a'' @ [DQUOTE] @ ''b'']"
    by code_simp
  show "parse_args [] = Inr []"
    by code_simp
qed

theorem parse_args_is_reference_scanner_witness:
  "tokenize_spec (''get '' @ [SQUOTE] @ ''my file'' @ [SQUOTE]) = Inr [''get'', ''my file'']
   \<and> parse_args (''get '' @ [SQUOTE] @ ''my file'' @ [SQUOTE]) = Inr [''get'', ''my file'']"
proof -
  have t: "tokenize_spec (''get '' @ [SQUOTE] @ ''my file'' @ [SQUOTE])
             = Inr [''get'', ''my file'']"
    by code_simp
  from parse_args_is_reference_scanner [of "''get '' @ [SQUOTE] @ ''my file'' @ [SQUOTE]"]
  have "parse_args (''get '' @ [SQUOTE] @ ''my file'' @ [SQUOTE]) = Inr [''get'', ''my file'']"
    by (simp only: t sum.case)
  with t show ?thesis by simp
qed

lemma error_kind_end:
  "error_kind (parse_args_end s) =
     (if quote s \<noteq> None then Some UnterminatedQuote
      else if escaping s then Some DanglingEscape
      else None)"
  by (simp add: parse_args_end_def)

text \<open>
  C5, as amended. At the end of the input, with \<open>f\<close> the state the scan has reached:
  \<open>_parse_args\<close> fails with the unterminated-quote error exactly when a quote is still
  open; it fails with the dangling-escape error exactly when the escaping flag is still
  set and no quote is open; and when neither holds it returns the tokens emitted so far,
  followed by the remaining buffer if that is not empty.
\<close>

theorem parse_args_end_of_input:
  "(let f = parse_args_loop args scan_init in
      (error_kind (parse_args args) = Some UnterminatedQuote \<longleftrightarrow> quote f \<noteq> None)
    \<and> (error_kind (parse_args args) = Some DanglingEscape
         \<longleftrightarrow> escaping f \<and> quote f = None)
    \<and> (quote f = None \<and> \<not> escaping f \<longrightarrow>
         parse_args args = Inr (if arg f \<noteq> [] then parsed f @ [arg f] else parsed f)))"
  unfolding Let_def parse_args_def
  by (simp add: error_kind_end) (simp add: parse_args_end_def)

theorem parse_args_end_of_input_witness:
  "error_kind (parse_args (''a'' @ [BACKSLASH])) = Some DanglingEscape
   \<and> error_kind (parse_args (''a '' @ [DQUOTE] @ ''b'')) = Some UnterminatedQuote
   \<and> parse_args ''a  b'' = Inr [''a'', ''b'']"
proof -
  have 1: "parse_args_loop (''a'' @ [BACKSLASH]) scan_init
             = \<lparr>parsed = [], arg = ''a'', escaping = True, quote = None, index = 2\<rparr>"
    by (simp add: parse_args_step_def scan_init_def)
  have 2: "parse_args_loop (''a '' @ [DQUOTE] @ ''b'') scan_init
             = \<lparr>parsed = [''a''], arg = ''b'', escaping = False, quote = Some DQUOTE,
                 index = 4\<rparr>"
    by (simp add: parse_args_step_def scan_init_def)
  have 3: "parse_args_loop ''a  b'' scan_init
             = \<lparr>parsed = [''a''], arg = ''b'', escaping = False, quote = None, index = 4\<rparr>"
    by (simp add: parse_args_step_def scan_init_def)
  show ?thesis
    using parse_args_end_of_input [of "''a'' @ [BACKSLASH]"]
      parse_args_end_of_input [of "''a '' @ [DQUOTE] @ ''b''"]
      parse_args_end_of_input [of "''a  b''"]
    unfolding Let_def 1 2 3 by simp
qed

text \<open>
  The claim as first stated fails on a double quote followed by a backslash: the escaping
  flag is set at the end of the input, and the error is the unterminated quote, not the
  dangling escape.
\<close>

theorem parse_args_dangling_escape_counterexample:
  "escaping (parse_args_loop [DQUOTE, BACKSLASH] scan_init)
   \<and> error_kind (parse_args [DQUOTE, BACKSLASH]) \<noteq> Some DanglingEscape
   \<and> parse_args [DQUOTE, BACKSLASH] = Inl (ValueError ''Unterminated quote at index 2'')"
  by code_simp

section \<open>Tokenizing plain input\<close>

lemma split_space_nonempty: "split_space s \<noteq> []"
  by (induction s) (auto split: list.splits)

lemma pieces_Nil: "pieces [] = []"
  by (simp add: pieces_def)

lemma pieces_space: "pieces (SPACE # cs) = pieces cs"
  by (simp add: pieces_def)

lemma pieces_single: "a \<noteq> SPACE \<Longrightarrow> pieces [a] = [[a]]"
  by (simp add: pieces_def)

lemma pieces_char_space: "a \<noteq> SPACE \<Longrightarrow> pieces (a # SPACE # cs) = [a] # pieces cs"
  by (simp add: pieces_def)

lemma pieces_char_char:
  "a \<noteq> SPACE \<Longrightarrow> b \<noteq> SPACE \<Longrightarrow>
   \<exists>w ws. pieces (b # cs) = w # ws \<and> pieces (a # b # cs) = (a # w) # ws"
  using split_space_nonempty [of cs] by (auto simp: pieces_def split: list.splits)

lemma join_Cons: "join sep (x # ys) = (if ys = [] then x else x @ sep @ join sep ys)"
  by (cases ys) simp_all

lemma rstrip_Nil: "rstrip [] = []"
  by (simp add: rstrip_def)

lemma rstrip_Cons:
  "rstrip (c # xs) = (if c = SPACE \<and> (\<forall>x \<in> set xs. x = SPACE) then [] else c # rstrip xs)"
  by (auto simp: rstrip_def dropWhile_append)

lemma squeeze_head: "a \<noteq> SPACE \<Longrightarrow> \<exists>r. squeeze (a # cs) = a # r"
  by (cases cs) simp_all

lemma rstrip_squeeze:
  "rstrip (squeeze s) =
     (if s \<noteq> [] \<and> hd s = SPACE \<and> pieces s \<noteq> [] then SPACE # join '' '' (pieces s)
      else join '' '' (pieces s))"
proof (induction s rule: squeeze.induct)
  case (1 a b cs)
  show ?case
  proof (cases "a = SPACE")
    case aS: True
    show ?thesis
    proof (cases "b = SPACE")
      case True
      with aS 1 show ?thesis by (simp add: pieces_space)
    next
      case False
      then obtain r where r: "squeeze (b # cs) = b # r"
        using squeeze_head by blast
      obtain w ws where w: "pieces (b # cs) = w # ws"
        using pieces_char_char [OF False False, of cs] by blast
      from aS False 1 r w show ?thesis
        by (simp add: pieces_space rstrip_Cons)
    qed
  next
    case aN: False
    show ?thesis
    proof (cases "b = SPACE")
      case True
      with aN 1 show ?thesis
        by (simp add: pieces_space pieces_char_space rstrip_Cons join_Cons)
    next
      case False
      obtain w ws where w: "pieces (b # cs) = w # ws" "pieces (a # b # cs) = (a # w) # ws"
        using pieces_char_char [OF aN False, of cs] by blast
      from aN False 1 w show ?thesis
        by (simp add: rstrip_Cons join_Cons)
    qed
  qed
qed (auto simp: rstrip_Cons rstrip_Nil pieces_def)

lemma dropWhile_squeeze:
  "dropWhile (\<lambda>c. c = SPACE) (squeeze s) = squeeze (dropWhile (\<lambda>c. c = SPACE) s)"
  by (induction s rule: squeeze.induct) auto

lemma pieces_dropWhile: "pieces (dropWhile (\<lambda>c. c = SPACE) s) = pieces s"
  by (induction s) (simp_all add: pieces_space)

lemma hd_dropWhile_space:
  "dropWhile (\<lambda>c. c = SPACE) s \<noteq> [] \<Longrightarrow> hd (dropWhile (\<lambda>c. c = SPACE) s) \<noteq> SPACE"
  using hd_dropWhile [of "\<lambda>c. c = SPACE" s] by simp

lemma join_pieces: "join '' '' (pieces s) = collapse_spaces s"
  unfolding collapse_spaces_def strip_spaces_def dropWhile_squeeze rstrip_squeeze
  using hd_dropWhile_space [of s] by (auto simp: pieces_dropWhile)

lemma split_space_append:
  "SPACE \<notin> set a \<Longrightarrow>
   split_space (a @ cs) = (a @ hd (split_space cs)) # tl (split_space cs)"
proof (induction a)
  case Nil
  then show ?case using split_space_nonempty [of cs] by simp
next
  case (Cons x a)
  then show ?case by auto
qed

lemma pieces_append_space:
  "SPACE \<notin> set a \<Longrightarrow> pieces (a @ SPACE # cs) = (if a = [] then [] else [a]) @ pieces cs"
  by (simp add: pieces_def split_space_append)

lemma pieces_no_space: "SPACE \<notin> set a \<Longrightarrow> pieces a = (if a = [] then [] else [a])"
  using split_space_append [of a "[]"] by (simp add: pieces_def)

lemma parse_args_loop_plain:
  "plain cs \<Longrightarrow> \<not> escaping s \<Longrightarrow> quote s = None \<Longrightarrow> SPACE \<notin> set (arg s) \<Longrightarrow>
   parse_args_end (parse_args_loop cs s) = Inr (parsed s @ pieces (arg s @ cs))"
proof (induction cs arbitrary: s)
  case Nil
  then show ?case by (simp add: parse_args_end_def pieces_no_space)
next
  case (Cons c cs)
  have pl: "plain cs" and c: "c \<noteq> BACKSLASH" "c \<noteq> DQUOTE" "c \<noteq> SQUOTE"
    using Cons.prems(1) by (simp_all add: plain_def)
  show ?case
  proof (cases "c = SPACE")
    case True
    let ?s' = "parse_args_step c s"
    have s': "\<not> escaping ?s'" "quote ?s' = None" "arg ?s' = []"
      "parsed ?s' = parsed s @ (if arg s = [] then [] else [arg s])"
      using Cons.prems True by (simp_all add: parse_args_step_def Let_def)
    have ih: "parse_args_end (parse_args_loop cs ?s') = Inr (parsed ?s' @ pieces (arg ?s' @ cs))"
      by (rule Cons.IH [OF pl]) (simp_all add: s')
    have "parsed ?s' @ pieces (arg ?s' @ cs) = parsed s @ pieces (arg s @ c # cs)"
      unfolding s' using True Cons.prems(4) by (simp add: pieces_append_space)
    with ih show ?thesis by simp
  next
    case False
    let ?s' = "parse_args_step c s"
    have s': "\<not> escaping ?s'" "quote ?s' = None" "arg ?s' = arg s @ [c]"
      "parsed ?s' = parsed s"
      using Cons.prems False c by (simp_all add: parse_args_step_def Let_def)
    have ih: "parse_args_end (parse_args_loop cs ?s') = Inr (parsed ?s' @ pieces (arg ?s' @ cs))"
      using False Cons.prems(4) by (intro Cons.IH [OF pl]) (auto simp: s')
    have "parsed ?s' @ pieces (arg ?s' @ cs) = parsed s @ pieces (arg s @ c # cs)"
      unfolding s' by simp
    with ih show ?thesis by simp
  qed
qed

lemma parse_args_plain: "plain s \<Longrightarrow> parse_args s = Inr (pieces s)"
  unfolding parse_args_def
  using parse_args_loop_plain [of s scan_init] by (simp add: scan_init_def)

text \<open>
  C6. For every input with no quote character and no escape character, \<open>_parse_args\<close>
  returns tokens, and joining them with single spaces gives the input with every run of
  spaces collapsed to one space and the spaces at both ends removed.
\<close>

theorem tokenize_join_roundtrip:
  "plain s \<Longrightarrow>
   (\<exists>ts. parse_args s = Inr ts \<and> join '' '' ts = collapse_spaces s)"
  by (simp add: parse_args_plain join_pieces)

theorem tokenize_join_roundtrip_witness:
  "\<exists>ts. parse_args ''  get   my file.txt  '' = Inr ts \<and> join '' '' ts = ''get my file.txt''"
proof -
  have p: "plain ''  get   my file.txt  ''"
    by (simp add: plain_def)
  have c: "collapse_spaces ''  get   my file.txt  '' = ''get my file.txt''"
    by (simp add: collapse_spaces_def strip_spaces_def rstrip_def)
  from tokenize_join_roundtrip [OF p] show ?thesis
    unfolding c .
qed

section \<open>Properties of \<open>ls\<close>\<close>

lemma ls_sort_defined: "st_mode e \<noteq> None \<Longrightarrow> ls_sort e = Inr (ls_key e)"
  by (auto simp: ls_sort_def ls_key_def mode_or_0_def)

lemma ls_sort_absent: "st_mode e = None \<Longrightarrow> ls_sort e = Inl TypeError"
  by (simp add: ls_sort_def)

lemma sort_keys_defined:
  "\<forall>e \<in> set es. st_mode e \<noteq> None \<Longrightarrow>
   sort_keys ls_sort es = Inr (map (\<lambda>e. (ls_key e, e)) es)"
  by (induction es) (simp_all add: ls_sort_defined)

lemma sort_keys_absent:
  "\<exists>e \<in> set es. st_mode e = None \<Longrightarrow> sort_keys ls_sort es = Inl TypeError"
proof (induction es)
  case Nil
  then show ?case by simp
next
  case (Cons x es)
  show ?case
  proof (cases "st_mode x")
    case None
    then show ?thesis by (simp add: ls_sort_absent)
  next
    case (Some m)
    with Cons have "sort_keys ls_sort es = Inl TypeError" by auto
    with Some show ?thesis by (simp add: ls_sort_defined)
  qed
qed

lemma ls_key_le: "ls_key a \<le> ls_key b \<Longrightarrow> listed_before a b"
  by (auto simp: ls_key_def listed_before_def kind_of_def less_eq_prod_def split: if_splits)

lemma sorted_decorated:
  fixes es :: "entry list"
  defines "shown \<equiv> map snd (sort_key fst (map (\<lambda>e. (ls_key e, e)) es))"
  shows "mset shown = mset es" and "sorted_wrt listed_before shown"
proof -
  let ?ps = "map (\<lambda>e. (ls_key e, e)) es"
  let ?sp = "sort_key fst ?ps"
  have "mset shown = image_mset snd (mset ?sp)"
    by (simp add: shown_def)
  also have "\<dots> = image_mset snd (mset ?ps)"
    by simp
  also have "\<dots> = mset es"
    by (simp add: image_mset.compositionality comp_def)
  finally show "mset shown = mset es" .
  have "\<forall>p \<in> set ?sp. fst p = ls_key (snd p)"
    by auto
  then have "map fst ?sp = map ls_key shown"
    by (simp add: shown_def)
  moreover have "sorted (map fst ?sp)"
    by (rule sorted_sort_key)
  ultimately have "sorted (map ls_key shown)"
    by simp
  then have "sorted_wrt (\<lambda>a b. ls_key a \<le> ls_key b) shown"
    by (simp add: sorted_map)
  then show "sorted_wrt listed_before shown"
    by (rule sorted_wrt_mono_rel [rotated]) (simp add: ls_key_le)
qed

lemma ls_listing_defined:
  "\<forall>e \<in> set es. st_mode e \<noteq> None \<Longrightarrow>
   ls_listing es = (map ls_line (map snd (sort_key fst (map (\<lambda>e. (ls_key e, e)) es))), None)"
  by (simp add: ls_listing_def sorted_by_def sort_keys_defined)

lemma ls_listing_absent:
  "\<exists>e \<in> set es. st_mode e = None \<Longrightarrow> ls_listing es = ([], Some TypeError)"
  by (simp add: ls_listing_def sorted_by_def sort_keys_absent)

text \<open>
  The order of a printed listing. For every listing, the lines of \<open>ls\<close> are the lines of
  entries in the composite
  order: directories first, then regular files, then other kinds, and within one kind by
  file name ascending, case-sensitive. When every entry has a defined mode, the entries
  shown are all the entries of the listing, each once, and \<open>ls\<close> ends normally. In
  particular the listing (directory b, file a, directory a) is printed as directory a,
  directory b, file a.
\<close>

theorem ls_displays_sorted:
  "(\<exists>shown. fst (ls_listing listing) = map ls_line shown
       \<and> sorted_wrt listed_before shown
       \<and> ((\<forall>e \<in> set listing. st_mode e \<noteq> None) \<longrightarrow>
            mset shown = mset listing \<and> snd (ls_listing listing) = None))
   \<and> ls_listing
        [\<lparr>filename = ''b'', st_mode = Some 16877\<rparr>,
         \<lparr>filename = ''a'', st_mode = Some 33188\<rparr>,
         \<lparr>filename = ''a'', st_mode = Some 16877\<rparr>]
      = ([FOLDER @ '' a'', FOLDER @ '' b'', PAGE @ '' a''], None)"
proof (intro conjI)
  show "\<exists>shown. fst (ls_listing listing) = map ls_line shown
       \<and> sorted_wrt listed_before shown
       \<and> ((\<forall>e \<in> set listing. st_mode e \<noteq> None) \<longrightarrow>
            mset shown = mset listing \<and> snd (ls_listing listing) = None)"
  proof (cases "\<forall>e \<in> set listing. st_mode e \<noteq> None")
    case True
    let ?shown = "map snd (sort_key fst (map (\<lambda>e. (ls_key e, e)) listing))"
    have "fst (ls_listing listing) = map ls_line ?shown" "snd (ls_listing listing) = None"
      by (simp_all add: ls_listing_defined [OF True])
    moreover have "mset ?shown = mset listing" "sorted_wrt listed_before ?shown"
      by (rule sorted_decorated)+
    ultimately show ?thesis
      by (intro exI [of _ ?shown]) (simp only: simp_thms)
  next
    case False
    then have "ls_listing listing = ([], Some TypeError)"
      by (intro ls_listing_absent) auto
    then have "fst (ls_listing listing) = map ls_line []"
      by simp
    with False show ?thesis
      by (intro exI [of _ "[]"]) (simp only: simp_thms sorted_wrt.simps)
  qed
  show "ls_listing
        [\<lparr>filename = ''b'', st_mode = Some 16877\<rparr>,
         \<lparr>filename = ''a'', st_mode = Some 33188\<rparr>,
         \<lparr>filename = ''a'', st_mode = Some 16877\<rparr>]
      = ([FOLDER @ '' a'', FOLDER @ '' b'', PAGE @ '' a''], None)"
    by (simp add: ls_listing_def sorted_by_def ls_sort_def ls_line_def symbol_def mode_or_0_def
        S_ISDIR_def S_ISREG_def S_IFMT_def less_eq_prod_def)
qed

theorem ls_displays_sorted_witness:
  "\<exists>shown.
     fst (ls_listing
            [\<lparr>filename = ''z'', st_mode = Some 41471\<rparr>,
             \<lparr>filename = ''a'', st_mode = Some 33188\<rparr>,
             \<lparr>filename = ''B'', st_mode = Some 33188\<rparr>,
             \<lparr>filename = ''d'', st_mode = Some 16877\<rparr>]) = map ls_line shown
     \<and> sorted_wrt listed_before shown
     \<and> mset shown =
           mset [\<lparr>filename = ''z'', st_mode = Some 41471\<rparr>,
                 \<lparr>filename = ''a'', st_mode = Some 33188\<rparr>,
                 \<lparr>filename = ''B'', st_mode = Some 33188\<rparr>,
                 \<lparr>filename = ''d'', st_mode = Some 16877\<rparr>]"
proof -
  let ?l = "[\<lparr>filename = ''z'', st_mode = Some 41471\<rparr>,
             \<lparr>filename = ''a'', st_mode = Some 33188\<rparr>,
             \<lparr>filename = ''B'', st_mode = Some 33188\<rparr>,
             \<lparr>filename = ''d'', st_mode = Some 16877\<rparr>]"
  have d: "\<forall>e \<in> set ?l. st_mode e \<noteq> None"
    by simp
  from ls_displays_sorted [of ?l] obtain shown where
    "fst (ls_listing ?l) = map ls_line shown" "sorted_wrt listed_before shown"
    "(\<forall>e \<in> set ?l. st_mode e \<noteq> None) \<longrightarrow>
       mset shown = mset ?l \<and> snd (ls_listing ?l) = None"
    by blast
  with d show ?thesis
    by blast
qed

text \<open>
  C10. \<open>ls\<close> ends without an exception exactly when every entry of the listing has a
  defined mode. The marker of an entry with no mode is the unknown marker (the mode
  defaults to 0 there), but its sort key is a \<open>TypeError\<close>; so for a listing with such an
  entry \<open>ls\<close> raises \<open>TypeError\<close> after \<open>listdir_attr\<close> and before anything is printed.
\<close>

theorem ls_needs_defined_modes:
  "(snd (ls_listing listing) = None \<longleftrightarrow> (\<forall>e \<in> set listing. st_mode e \<noteq> None))
   \<and> ((\<exists>e \<in> set listing. st_mode e = None) \<longrightarrow>
         ls_listing listing = ([], Some TypeError)
         \<and> (listdir_attr env = Returns listing \<longrightarrow>
              ls env = ([Call_listdir_attr], Some TypeError)))
   \<and> (st_mode e = None \<longrightarrow> symbol e = ''?'' \<and> ls_sort e = Inl TypeError)"
proof (intro conjI impI)
  show "snd (ls_listing listing) = None \<longleftrightarrow> (\<forall>e \<in> set listing. st_mode e \<noteq> None)"
  proof (cases "\<forall>e \<in> set listing. st_mode e \<noteq> None")
    case True
    then show ?thesis by (simp add: ls_listing_defined)
  next
    case False
    then have "ls_listing listing = ([], Some TypeError)"
      by (intro ls_listing_absent) auto
    with False show ?thesis by simp
  qed
next
  assume "\<exists>e \<in> set listing. st_mode e = None"
  then show "ls_listing listing = ([], Some TypeError)"
    by (rule ls_listing_absent)
next
  assume "\<exists>e \<in> set listing. st_mode e = None" and "listdir_attr env = Returns listing"
  then show "ls env = ([Call_listdir_attr], Some TypeError)"
    by (simp add: ls_def ls_listing_absent)
next
  assume "st_mode e = None"
  then show "symbol e = ''?''"
    by (simp add: symbol_def mode_or_0_def S_ISDIR_def S_ISREG_def S_IFMT_def)
next
  assume "st_mode e = None"
  then show "ls_sort e = Inl TypeError"
    by (rule ls_sort_absent)
qed

theorem ls_needs_defined_modes_witness:
  "ls_listing [\<lparr>filename = ''a'', st_mode = Some 16877\<rparr>, \<lparr>filename = ''x'', st_mode = None\<rparr>]
     = ([], Some TypeError)
   \<and> symbol \<lparr>filename = ''x'', st_mode = None\<rparr> = ''?''
   \<and> ls_sort \<lparr>filename = ''x'', st_mode = None\<rparr> = Inl TypeError
   \<and> snd (ls_listing [\<lparr>filename = ''a'', st_mode = Some 16877\<rparr>]) = None"
  using
    ls_needs_defined_modes
      [of "[\<lparr>filename = ''a'', st_mode = Some 16877\<rparr>, \<lparr>filename = ''x'', st_mode = None\<rparr>]"
          _ "\<lparr>filename = ''x'', st_mode = None\<rparr>"]
    ls_needs_defined_modes
      [of "[\<lparr>filename = ''a'', st_mode = Some 16877\<rparr>]" _ "\<lparr>filename = ''x'', st_mode = None\<rparr>"]
  by simp

section \<open>Properties of the session loop\<close>







lemma cd_command_state: "cd_command env args st = (st1, evs, err) \<Longrightarrow> st1 = st"
  by (auto simp: cd_command_def Let_def split: if_splits prod.splits sum.splits)



lemma dispatch_ls:
  "dispatch env ''ls'' args st = (case ls env of (evs, err) \<Rightarrow> (st, evs, err))"
  by (simp add: dispatch_def)

lemma dispatch_cd: "dispatch env ''cd'' args st = cd_command env args st"
  by (simp add: dispatch_def)

lemma dispatch_get:
  "cmd \<in> set [''get'', ''download''] \<Longrightarrow> dispatch env cmd args st = get_command env args st"
  by (auto simp add: dispatch_def)










lemma join_split_space: "join '' '' (split_space s) = s"
proof (induction s)
  case Nil
  show ?case by simp
next
  case (Cons c cs)
  obtain w ws where w: "split_space cs = w # ws"
    using split_space_nonempty [of cs] by (cases "split_space cs") auto
  with Cons show ?case by (auto simp: join_Cons)
qed

lemma loop_body_getcwd_raises:
  "getcwd env = Raises e \<Longrightarrow> loop_body env st = (st, [Call_getcwd], Some e)"
  by (simp add: loop_body_def)


lemma loop_body_line:
  "getcwd env = Returns cwd \<Longrightarrow> prompt env = Returns txt \<Longrightarrow>
   split_space txt = cmd # rest \<Longrightarrow>
   loop_body env st =
     (case line_args (cmd # rest) of
        Inl e \<Rightarrow> (st\<lparr>pwd := or_empty cwd\<rparr>, [Call_getcwd, Call_prompt], Some e)
      | Inr args \<Rightarrow>
          (case dispatch env cmd args (st\<lparr>pwd := or_empty cwd\<rparr>) of
             (st2, evs, err) \<Rightarrow> (st2, [Call_getcwd, Call_prompt] @ evs, err)))"
  by (simp add: loop_body_def Let_def)

lemma start_interactive_raise:
  "\<not> closed st \<Longrightarrow> loop_body env st = (sb, eb, Some e) \<Longrightarrow>
   start_interactive (env # envs) st =
     (if e = KeyboardInterrupt then (sb\<lparr>closed := True\<rparr>, eb @ [Call_close], Returned)
      else (sb, eb, Raised e))"
  by simp

lemma start_interactive_continue:
  "\<not> closed st \<Longrightarrow> loop_body env st = (sb, eb, None) \<Longrightarrow>
   start_interactive (env # envs) st =
     (case start_interactive envs sb of (s2, e2, out) \<Rightarrow> (s2, eb @ e2, out))"
  by simp





text \<open>
  C9. When the directory-change request of a \<open>cd\<close> fails with an \<open>IOError\<close>, the error is
  printed, no exception leaves the command, and the state, with its working-directory
  string, is what it was before the call; a \<open>cd\<close> with no argument makes no request and
  changes nothing; through a whole iteration that reads \<open>cd\<close> and an argument string, the
  working directory after the failed request is the one read from \<open>getcwd\<close> at the start
  of the iteration, and the loop goes on.
\<close>

theorem cd_failure_keeps_pwd:
  "(args \<noteq> [] \<and> chdir env (join ''/'' [pwd st, args ! 0]) = Raises (IOError m) \<longrightarrow>
      dispatch env ''cd'' args st
        = (st, [Call_chdir (join ''/'' [pwd st, args ! 0]), Print m], None))
   \<and> dispatch env ''cd'' [] st = (st, [], None)
   \<and> (dispatch env ''cd'' args st = (st1, evs, err) \<longrightarrow> pwd st1 = pwd st)
   \<and> (getcwd env = Returns cwd \<and> prompt env = Returns (''cd '' @ a)
        \<and> parse_args a = Inr (x # xs)
        \<and> chdir env (join ''/'' [or_empty cwd, x]) = Raises (IOError m) \<longrightarrow>
        loop_body env st
          = (st\<lparr>pwd := or_empty cwd\<rparr>,
             [Call_getcwd, Call_prompt, Call_chdir (join ''/'' [or_empty cwd, x]), Print m],
             None))"
proof (intro conjI impI)
  assume "args \<noteq> [] \<and> chdir env (join ''/'' [pwd st, args ! 0]) = Raises (IOError m)"
  then show "dispatch env ''cd'' args st
        = (st, [Call_chdir (join ''/'' [pwd st, args ! 0]), Print m], None)"
    by (simp add: dispatch_cd cd_command_def Let_def)
next
  show "dispatch env ''cd'' [] st = (st, [], None)"
    by (simp add: dispatch_cd cd_command_def)
next
  assume "dispatch env ''cd'' args st = (st1, evs, err)"
  then show "pwd st1 = pwd st"
    by (auto simp: dispatch_cd dest: cd_command_state)
next
  assume a: "getcwd env = Returns cwd \<and> prompt env = Returns (''cd '' @ a)
        \<and> parse_args a = Inr (x # xs)
        \<and> chdir env (join ''/'' [or_empty cwd, x]) = Raises (IOError m)"
  have s: "split_space (''cd '' @ a) = ''cd'' # split_space a"
    by simp
  have l: "line_args (''cd'' # split_space a) = Inr (x # xs)"
    using a split_space_nonempty [of a] by (simp add: line_args_def join_split_space)
  from a have g: "getcwd env = Returns cwd" and p: "prompt env = Returns (''cd '' @ a)"
    by simp_all
  show "loop_body env st
          = (st\<lparr>pwd := or_empty cwd\<rparr>,
             [Call_getcwd, Call_prompt, Call_chdir (join ''/'' [or_empty cwd, x]), Print m],
             None)"
    using a by (simp add: loop_body_line [OF g p s] l dispatch_cd cd_command_def Let_def)
qed

theorem cd_failure_keeps_pwd_witness:
  "loop_body
     (example_session\<lparr>prompt := Returns ''cd nowhere'',
        chdir := (\<lambda>path. Raises (IOError ''No such file''))\<rparr>)
     \<lparr>closed = False, pwd = ''/home'', fname = None\<rparr>
   = (\<lparr>closed = False, pwd = ''/home'', fname = None\<rparr>,
      [Call_getcwd, Call_prompt, Call_chdir ''/home/nowhere'', Print ''No such file''],
      None)"
proof -
  let ?env = "example_session\<lparr>prompt := Returns ''cd nowhere'',
        chdir := (\<lambda>path. Raises (IOError ''No such file''))\<rparr>"
  have p: "parse_args ''nowhere'' = Inr [''nowhere'']"
    by code_simp
  have "getcwd ?env = Returns (Some ''/home'') \<and> prompt ?env = Returns (''cd '' @ ''nowhere'')
        \<and> parse_args ''nowhere'' = Inr [''nowhere'']
        \<and> chdir ?env (join ''/'' [or_empty (Some ''/home''), ''nowhere''])
            = Raises (IOError ''No such file'')"
    by (simp add: example_session_def p)
  with cd_failure_keeps_pwd
    [where env = ?env and m = "''No such file''" and cwd = "Some ''/home''"
      and a = "''nowhere''" and x = "''nowhere''" and xs = "[]"
      and st = "\<lparr>closed = False, pwd = ''/home'', fname = None\<rparr>"]
  have "loop_body ?env \<lparr>closed = False, pwd = ''/home'', fname = None\<rparr>
      = (\<lparr>closed = False, pwd = ''/home'', fname = None\<rparr>\<lparr>pwd := or_empty (Some ''/home'')\<rparr>,
         [Call_getcwd, Call_prompt,
          Call_chdir (join ''/'' [or_empty (Some ''/home''), ''nowhere'']),
          Print ''No such file''],
         None)"
    by blast
  then show ?thesis
    by (simp add: or_empty_def)
qed

section \<open>The \<open>get\<close> command and tokenizer failures in the loop\<close>

lemma get_one_argument_unbound:
  "fname st = None \<Longrightarrow>
   get_command env [F] st = (st, [], Some (UnboundLocalError ''fname''))"
  by (simp add: get_command_def)

lemma get_one_argument_stale:
  "fname st = Some G \<Longrightarrow>
   get_command env [F] st =
     (case download_file env (pwd st) F (''./'' @ G) of
        (evs, err) \<Rightarrow> (st\<lparr>fname := Some F\<rparr>, evs, err))"
  by (simp add: get_command_def)

lemma parse_args_file: "parse_args ''file.txt'' = Inr [''file.txt'']"
  by code_simp

lemma parse_args_a_b: "parse_args ''a.txt b.txt'' = Inr [''a.txt'', ''b.txt'']"
  by code_simp

lemma parse_args_c: "parse_args ''c.txt'' = Inr [''c.txt'']"
  by code_simp

lemma loop_body_get:
  "getcwd env = Returns cwd \<Longrightarrow> prompt env = Returns (''get '' @ a) \<Longrightarrow>
   parse_args a = Inr args \<Longrightarrow>
   loop_body env st =
     (case get_command env args (st\<lparr>pwd := or_empty cwd\<rparr>) of
        (st2, evs, err) \<Rightarrow> (st2, [Call_getcwd, Call_prompt] @ evs, err))"
proof -
  assume g: "getcwd env = Returns cwd" and p: "prompt env = Returns (''get '' @ a)"
    and a: "parse_args a = Inr args"
  have s: "split_space (''get '' @ a) = ''get'' # split_space a"
    by simp
  have l: "line_args (''get'' # split_space a) = Inr args"
    using a split_space_nonempty [of a] by (simp add: line_args_def join_split_space)
  have d: "dispatch env ''get'' args st' = get_command env args st'" for st'
    by (rule dispatch_get) simp
  show ?thesis
    by (simp add: loop_body_line [OF g p s] l d)
qed

text \<open>
  C1. What \<open>get\<close> with one argument does. The save path is built from the value \<open>fname\<close>
  had before the command, not from the argument: as the first \<open>get\<close> of a session,
  \<open>get file.txt\<close> raises \<open>UnboundLocalError\<close>, which leaves \<open>start_interactive\<close> with no
  download and no \<open>close\<close>; after \<open>get a.txt b.txt\<close>, the command \<open>get c.txt\<close> downloads
  \<open>c.txt\<close> to \<open>./a.txt\<close>. The two lemmas before the theorem give the same for every
  argument and state.
\<close>

theorem get_one_argument_failing_input:
  "start_interactive [example_session\<lparr>prompt := Returns ''get file.txt''\<rparr>] client_init
     = (\<lparr>closed = False, pwd = ''/home'', fname = None\<rparr>,
        [Call_getcwd, Call_prompt],
        Raised (UnboundLocalError ''fname''))
   \<and> start_interactive
        [example_session\<lparr>prompt := Returns ''get a.txt b.txt''\<rparr>,
         example_session\<lparr>prompt := Returns ''get c.txt''\<rparr>]
        client_init
     = (\<lparr>closed = False, pwd = ''/home'', fname = Some ''c.txt''\<rparr>,
        [Call_getcwd, Call_prompt, Call_get ''/home/a.txt'' ''b.txt'',
         Call_getcwd, Call_prompt, Call_get ''/home/c.txt'' ''./a.txt''],
        Running)"
proof (intro conjI)
  let ?e1 = "example_session\<lparr>prompt := Returns ''get file.txt''\<rparr>"
  have g1: "getcwd ?e1 = Returns (Some ''/home'')" and p1: "prompt ?e1 = Returns (''get '' @ ''file.txt'')"
    by (simp_all add: example_session_def)
  have b1: "loop_body ?e1 client_init
      = (\<lparr>closed = False, pwd = ''/home'', fname = None\<rparr>, [Call_getcwd, Call_prompt],
         Some (UnboundLocalError ''fname''))"
    unfolding loop_body_get [OF g1 p1 parse_args_file]
    by (simp add: get_one_argument_unbound client_init_def or_empty_def)
  have n0: "\<not> closed client_init"
    by (simp add: client_init_def)
  show "start_interactive [?e1] client_init
     = (\<lparr>closed = False, pwd = ''/home'', fname = None\<rparr>,
        [Call_getcwd, Call_prompt],
        Raised (UnboundLocalError ''fname''))"
    unfolding start_interactive_raise [OF n0 b1] by simp
  let ?e2 = "example_session\<lparr>prompt := Returns ''get a.txt b.txt''\<rparr>"
  let ?e3 = "example_session\<lparr>prompt := Returns ''get c.txt''\<rparr>"
  let ?s2 = "\<lparr>closed = False, pwd = ''/home'', fname = Some ''a.txt''\<rparr>"
  let ?s3 = "\<lparr>closed = False, pwd = ''/home'', fname = Some ''c.txt''\<rparr>"
  have g2: "getcwd ?e2 = Returns (Some ''/home'')"
    and p2: "prompt ?e2 = Returns (''get '' @ ''a.txt b.txt'')"
    and g3: "getcwd ?e3 = Returns (Some ''/home'')"
    and p3: "prompt ?e3 = Returns (''get '' @ ''c.txt'')"
    by (simp_all add: example_session_def)
  have b2: "loop_body ?e2 client_init
      = (?s2, [Call_getcwd, Call_prompt, Call_get ''/home/a.txt'' ''b.txt''], None)"
    unfolding loop_body_get [OF g2 p2 parse_args_a_b]
    by (simp add: get_command_def download_file_def client_init_def or_empty_def
        example_session_def)
  have b3: "loop_body ?e3 ?s2
      = (?s3, [Call_getcwd, Call_prompt, Call_get ''/home/c.txt'' ''./a.txt''], None)"
    unfolding loop_body_get [OF g3 p3 parse_args_c]
    by (simp add: get_command_def download_file_def or_empty_def example_session_def)
  have n2: "\<not> closed ?s2"
    by simp
  show "start_interactive [?e2, ?e3] client_init
     = (?s3,
        [Call_getcwd, Call_prompt, Call_get ''/home/a.txt'' ''b.txt'',
         Call_getcwd, Call_prompt, Call_get ''/home/c.txt'' ''./a.txt''],
        Running)"
    unfolding start_interactive_continue [OF n0 b2] start_interactive_continue [OF n2 b3]
    by simp
qed

lemma parse_args_open_quote:
  "parse_args ([DQUOTE] @ ''abc'') = Inl (ValueError ''Unterminated quote at index 4'')"
  by code_simp

lemma parse_args_raises_ValueError: "parse_args s = Inl e \<Longrightarrow> \<exists>m. e = ValueError m"
  by (auto simp: parse_args_def parse_args_end_def split: if_splits)

lemma tokenizer_failure_not_caught:
  assumes "\<not> closed st" "getcwd env = Returns cwd" "prompt env = Returns ln"
    "line_args (split_space ln) = Inl e"
  shows "start_interactive (env # envs) st
    = (st\<lparr>pwd := or_empty cwd\<rparr>, [Call_getcwd, Call_prompt], Raised e)"
proof -
  obtain cmd rest where s: "split_space ln = cmd # rest"
    using split_space_nonempty [of ln] by (cases "split_space ln") auto
  have "length (cmd # rest) > 1"
    using assms(4) s by (auto simp: line_args_def split: if_splits)
  with assms(4) s have "parse_args (join '' '' rest) = Inl e"
    by (simp add: line_args_def)
  then have ne: "e \<noteq> KeyboardInterrupt"
    using parse_args_raises_ValueError by blast
  have b: "loop_body env st = (st\<lparr>pwd := or_empty cwd\<rparr>, [Call_getcwd, Call_prompt], Some e)"
    using assms(4) s by (simp add: loop_body_line [OF assms(2,3) s])
  show ?thesis
    using ne unfolding start_interactive_raise [OF assms(1) b] by simp
qed

text \<open>
  C2. What a tokenizer failure does to the loop. The \<open>ValueError\<close> of \<open>_parse_args\<close> is
  not a \<open>KeyboardInterrupt\<close>, so the \<open>except\<close> clause does not catch it: on the line
  \<open>cd "abc\<close> nothing is printed, no command runs, and the exception leaves
  \<open>start_interactive\<close> before the next line (\<open>quit\<close>) is read and before \<open>close\<close>. The lemma
  before the theorem gives the same for every line whose arguments fail to tokenize.
\<close>

theorem tokenizer_failure_failing_input:
  "start_interactive
     [example_session\<lparr>prompt := Returns (''cd '' @ [DQUOTE] @ ''abc'')\<rparr>,
      example_session\<lparr>prompt := Returns ''quit''\<rparr>]
     client_init
   = (\<lparr>closed = False, pwd = ''/home'', fname = None\<rparr>,
      [Call_getcwd, Call_prompt],
      Raised (ValueError ''Unterminated quote at index 4''))"
proof -
  let ?e = "example_session\<lparr>prompt := Returns (''cd '' @ [DQUOTE] @ ''abc'')\<rparr>"
  have n0: "\<not> closed client_init"
    by (simp add: client_init_def)
  have g: "getcwd ?e = Returns (Some ''/home'')"
    and p: "prompt ?e = Returns (''cd '' @ [DQUOTE] @ ''abc'')"
    by (simp_all add: example_session_def)
  have "split_space (''cd '' @ [DQUOTE] @ ''abc'') = [''cd'', [DQUOTE] @ ''abc'']"
    by simp
  then have l: "line_args (split_space (''cd '' @ [DQUOTE] @ ''abc''))
      = Inl (ValueError ''Unterminated quote at index 4'')"
    using parse_args_open_quote by (simp add: line_args_def)
  show ?thesis
    unfolding tokenizer_failure_not_caught [OF n0 g p l]
    by (simp add: client_init_def or_empty_def)
qed

section \<open>\<open>ls\<close> on a listing with an absent mode\<close>

lemma ls_prints_sorted:
  assumes "listdir_attr env = Returns listing" "\<forall>e \<in> set listing. st_mode e \<noteq> None"
  shows "\<exists>shown. ls env = (Call_listdir_attr # map (\<lambda>e. Print (ls_line e)) shown, None)
    \<and> mset shown = mset listing \<and> sorted_wrt listed_before shown"
proof -
  let ?shown = "map snd (sort_key fst (map (\<lambda>e. (ls_key e, e)) listing))"
  have "ls env = (Call_listdir_attr # map (\<lambda>e. Print (ls_line e)) ?shown, None)"
    by (simp add: ls_def assms(1) ls_listing_defined [OF assms(2)] comp_def)
  moreover have "mset ?shown = mset listing" "sorted_wrt listed_before ?shown"
    by (rule sorted_decorated)+
  ultimately show ?thesis
    by (intro exI [of _ ?shown]) (simp only: simp_thms)
qed

text \<open>
  C8. What \<open>ls\<close> does on a listing with an entry whose mode is absent. On the listing
  (directory b, x with no mode, directory a), \<open>_ls_sort\<close> raises \<open>TypeError\<close> inside
  \<open>sorted\<close>: \<open>ls\<close> prints nothing, and the exception leaves \<open>start_interactive\<close> before the
  next line is read and before \<open>close\<close>. With mode 0 in place of the absent mode, which is
  what \<open>entry.st_mode or 0\<close> gives the marker selection, the same listing is printed in the
  composite order with the unknown marker last; and the listing (directory b, file a,
  directory a) is printed as directory a, directory b, file a. The lemma before the
  theorem gives the composite order of what \<open>ls\<close> prints for every listing whose modes are
  all defined.
\<close>

theorem ls_absent_mode_failing_input:
  "ls (example_session\<lparr>listdir_attr := Returns
         [\<lparr>filename = ''b'', st_mode = Some 16877\<rparr>,
          \<lparr>filename = ''x'', st_mode = None\<rparr>,
          \<lparr>filename = ''a'', st_mode = Some 16877\<rparr>]\<rparr>)
     = ([Call_listdir_attr], Some TypeError)
   \<and> start_interactive
        [example_session\<lparr>listdir_attr := Returns
           [\<lparr>filename = ''b'', st_mode = Some 16877\<rparr>,
            \<lparr>filename = ''x'', st_mode = None\<rparr>,
            \<lparr>filename = ''a'', st_mode = Some 16877\<rparr>]\<rparr>,
         example_session\<lparr>prompt := Returns ''quit''\<rparr>]
        client_init
     = (\<lparr>closed = False, pwd = ''/home'', fname = None\<rparr>,
        [Call_getcwd, Call_prompt, Call_listdir_attr],
        Raised TypeError)
   \<and> ls (example_session\<lparr>listdir_attr := Returns
         [\<lparr>filename = ''b'', st_mode = Some 16877\<rparr>,
          \<lparr>filename = ''x'', st_mode = Some 0\<rparr>,
          \<lparr>filename = ''a'', st_mode = Some 16877\<rparr>]\<rparr>)
     = ([Call_listdir_attr, Print (FOLDER @ '' a''), Print (FOLDER @ '' b''), Print ''? x''],
        None)
   \<and> ls (example_session\<lparr>listdir_attr := Returns
         [\<lparr>filename = ''b'', st_mode = Some 16877\<rparr>,
          \<lparr>filename = ''a'', st_mode = Some 33188\<rparr>,
          \<lparr>filename = ''a'', st_mode = Some 16877\<rparr>]\<rparr>)
     = ([Call_listdir_attr, Print (FOLDER @ '' a''), Print (FOLDER @ '' b''),
         Print (PAGE @ '' a'')],
        None)"
proof (intro conjI)
  let ?bad = "[\<lparr>filename = ''b'', st_mode = Some 16877\<rparr>,
          \<lparr>filename = ''x'', st_mode = None\<rparr>,
          \<lparr>filename = ''a'', st_mode = Some 16877\<rparr>]"
  let ?env = "example_session\<lparr>listdir_attr := Returns ?bad\<rparr>"
  have l: "ls_listing ?bad = ([], Some TypeError)"
    by (rule ls_listing_absent) simp
  show 1: "ls ?env = ([Call_listdir_attr], Some TypeError)"
    by (simp add: ls_def l)
  have g: "getcwd ?env = Returns (Some ''/home'')" and p: "prompt ?env = Returns ''ls''"
    by (simp_all add: example_session_def)
  have s: "split_space ''ls'' = [''ls'']"
    by simp
  have b: "loop_body ?env client_init
      = (\<lparr>closed = False, pwd = ''/home'', fname = None\<rparr>,
         [Call_getcwd, Call_prompt, Call_listdir_attr], Some TypeError)"
    unfolding loop_body_line [OF g p s]
    by (simp add: line_args_def dispatch_ls 1 client_init_def or_empty_def)
  have n0: "\<not> closed client_init"
    by (simp add: client_init_def)
  show "start_interactive [?env, example_session\<lparr>prompt := Returns ''quit''\<rparr>] client_init
     = (\<lparr>closed = False, pwd = ''/home'', fname = None\<rparr>,
        [Call_getcwd, Call_prompt, Call_listdir_attr],
        Raised TypeError)"
    unfolding start_interactive_raise [OF n0 b] by simp
  show "ls (example_session\<lparr>listdir_attr := Returns
         [\<lparr>filename = ''b'', st_mode = Some 16877\<rparr>,
          \<lparr>filename = ''x'', st_mode = Some 0\<rparr>,
          \<lparr>filename = ''a'', st_mode = Some 16877\<rparr>]\<rparr>)
     = ([Call_listdir_attr, Print (FOLDER @ '' a''), Print (FOLDER @ '' b''), Print ''? x''],
        None)"
    by (simp add: ls_def ls_listing_def sorted_by_def ls_sort_def ls_line_def symbol_def
        mode_or_0_def S_ISDIR_def S_ISREG_def S_IFMT_def less_eq_prod_def)
  show "ls (example_session\<lparr>listdir_attr := Returns
         [\<lparr>filename = ''b'', st_mode = Some 16877\<rparr>,
          \<lparr>filename = ''a'', st_mode = Some 33188\<rparr>,
          \<lparr>filename = ''a'', st_mode = Some 16877\<rparr>]\<rparr>)
     = ([Call_listdir_attr, Print (FOLDER @ '' a''), Print (FOLDER @ '' b''),
         Print (PAGE @ '' a'')],
        None)"
    by (simp add: ls_def ls_listing_def sorted_by_def ls_sort_def ls_line_def symbol_def
        mode_or_0_def S_ISDIR_def S_ISREG_def S_IFMT_def less_eq_prod_def)
qed

section \<open>Properties of the completion cache\<close>

lemma refresh_cache_same:
  "int (word_count doc) = last_word_count c \<Longrightarrow> refresh_cache word_gen doc c = (c, [], None)"
  by (simp add: refresh_cache_def word_count_def)

lemma refresh_cache_returns:
  "int (word_count doc) \<noteq> last_word_count c \<Longrightarrow> word_gen doc = Inr ws \<Longrightarrow>
   refresh_cache word_gen doc c
     = (c\<lparr>word_cache := ws, last_word_count := int (word_count doc)\<rparr>, [doc], None)"
  by (simp add: refresh_cache_def word_count_def)

lemma refresh_cache_raises:
  "int (word_count doc) \<noteq> last_word_count c \<Longrightarrow> word_gen doc = Inl e \<Longrightarrow>
   refresh_cache word_gen doc c = (c, [doc], Some e)"
  by (simp add: refresh_cache_def word_count_def)

lemma get_completions_same:
  "int (word_count doc) = last_word_count c \<Longrightarrow>
   get_completions sl word_gen doc c
     = (c, [], Inr (yield_completions sl (word_cache c) doc))"
  by (simp add: get_completions_def refresh_cache_same)

lemma get_completions_returns:
  "int (word_count doc) \<noteq> last_word_count c \<Longrightarrow> word_gen doc = Inr ws \<Longrightarrow>
   get_completions sl word_gen doc c
     = (c\<lparr>word_cache := ws, last_word_count := int (word_count doc)\<rparr>, [doc],
        Inr (yield_completions sl ws doc))"
  by (simp add: get_completions_def refresh_cache_returns)

lemma get_completions_raises:
  "int (word_count doc) \<noteq> last_word_count c \<Longrightarrow> word_gen doc = Inl e \<Longrightarrow>
   get_completions sl word_gen doc c = (c, [doc], Inl e)"
  by (simp add: get_completions_def refresh_cache_raises)

lemma get_completions_calls:
  "fst (snd (get_completions sl word_gen doc c)) =
     (if int (word_count doc) \<noteq> last_word_count c then [doc] else [])"
proof (cases "int (word_count doc) = last_word_count c")
  case True
  then show ?thesis by (simp add: get_completions_same)
next
  case False
  then show ?thesis
    by (cases "word_gen doc") (simp_all add: get_completions_returns get_completions_raises)
qed

lemma get_completions_count:
  "\<not> isl (word_gen doc) \<Longrightarrow>
   last_word_count (fst (get_completions sl word_gen doc c)) = int (word_count doc)"
proof (cases "int (word_count doc) = last_word_count c")
  case True
  then show ?thesis by (simp add: get_completions_same)
next
  case False
  assume "\<not> isl (word_gen doc)"
  then obtain ws where "word_gen doc = Inr ws"
    by (cases "word_gen doc") auto
  with False show ?thesis by (simp add: get_completions_returns)
qed

lemma yield_completions_texts:
  "map text' (yield_completions sl wrds doc)
     = filter (\<lambda>a. contains (sl (word_before_cursor doc)) (sl a)) wrds"
  by (simp add: yield_completions_def Let_def comp_def)

lemma requests_Cons:
  "fst (requests sl word_gen (doc # docs) c) =
     (fst (snd (get_completions sl word_gen doc c)), snd (snd (get_completions sl word_gen doc c)))
       # fst (requests sl word_gen docs (fst (get_completions sl word_gen doc c)))"
  by (simp split: prod.splits)

lemma requests_calls:
  "\<forall>d \<in> set docs. \<not> isl (word_gen d) \<Longrightarrow> i < length docs \<Longrightarrow>
   fst (fst (requests sl word_gen docs c) ! i) =
     (if (if i = 0 then int (word_count (docs ! 0)) \<noteq> last_word_count c
          else word_count (docs ! i) \<noteq> word_count (docs ! (i - 1)))
      then [docs ! i] else [])"
proof (induction docs arbitrary: c i)
  case Nil
  then show ?case by simp
next
  case (Cons doc docs)
  show ?case
  proof (cases i)
    case 0
    then show ?thesis
      by (simp add: requests_Cons get_completions_calls del: requests.simps)
  next
    case (Suc j)
    with Cons.prems have j: "j < length docs" by simp
    from Cons.prems have r: "\<forall>d \<in> set docs. \<not> isl (word_gen d)" and d: "\<not> isl (word_gen doc)"
      by simp_all
    let ?c1 = "fst (get_completions sl word_gen doc c)"
    have "fst (fst (requests sl word_gen (doc # docs) c) ! i)
        = fst (fst (requests sl word_gen docs ?c1) ! j)"
      by (simp only: requests_Cons Suc nth_Cons_Suc)
    also have "\<dots> =
     (if (if j = 0 then int (word_count (docs ! 0)) \<noteq> last_word_count ?c1
          else word_count (docs ! j) \<noteq> word_count (docs ! (j - 1)))
      then [docs ! j] else [])"
      by (rule Cons.IH [OF r j])
    also have "\<dots> =
     (if word_count ((doc # docs) ! i) \<noteq> word_count ((doc # docs) ! (i - 1))
      then [(doc # docs) ! i] else [])"
      using Suc d by (cases j) (simp_all add: get_completions_count [of word_gen doc])
    finally show ?thesis using Suc by simp
  qed
qed

text \<open>
  C7, as amended. On one completer, a request calls the word source exactly when the
  number of pieces of its line differs from the stored count, and then once, with the
  document of that request. The stored count is the sentinel at first; a request whose call
  returns stores its own count and the list returned; a request whose call raises stores
  nothing, and the exception ends the request. A request that makes no call leaves the
  completer as it was and yields its completions from the cached list: they are the cached
  words that contain the word before the cursor, both lowered, in the order of the cache.
  So, for any sequence of requests in which no call of the word source raises, request \<open>i\<close>
  calls it exactly when \<open>i\<close> is the first request or its count differs from that of request
  \<open>i - 1\<close>; and two consecutive requests with the same count, the first of which called
  the word source and got a list, make that one call, the second yielding from that list.
\<close>

theorem word_source_called_on_stored_count_change:
  "fst (snd (get_completions sl word_gen doc c)) =
     (if int (word_count doc) \<noteq> last_word_count c then [doc] else [])
   \<and> (int (word_count doc) = last_word_count c \<longrightarrow>
        get_completions sl word_gen doc c
          = (c, [], Inr (yield_completions sl (word_cache c) doc)))
   \<and> (int (word_count doc) \<noteq> last_word_count c \<and> word_gen doc = Inr ws \<longrightarrow>
        get_completions sl word_gen doc c
          = (c\<lparr>word_cache := ws, last_word_count := int (word_count doc)\<rparr>, [doc],
             Inr (yield_completions sl ws doc)))
   \<and> (int (word_count doc) \<noteq> last_word_count c \<and> word_gen doc = Inl e \<longrightarrow>
        get_completions sl word_gen doc c = (c, [doc], Inl e))
   \<and> map text' (yield_completions sl wrds doc)
        = filter (\<lambda>a. contains (sl (word_before_cursor doc)) (sl a)) wrds
   \<and> ((\<forall>d \<in> set docs. \<not> isl (word_gen d)) \<and> i < length docs \<longrightarrow>
        fst (fst (requests sl word_gen docs completer_init) ! i) =
          (if i = 0 \<or> word_count (docs ! i) \<noteq> word_count (docs ! (i - 1))
           then [docs ! i] else []))
   \<and> (int (word_count doc) \<noteq> last_word_count c \<and> word_gen doc = Inr ws
        \<and> word_count doc2 = word_count doc \<longrightarrow>
        fst (requests sl word_gen [doc, doc2] c)
          = [([doc], Inr (yield_completions sl ws doc)),
             ([], Inr (yield_completions sl ws doc2))])"
proof (intro conjI impI)
  show "fst (snd (get_completions sl word_gen doc c)) =
     (if int (word_count doc) \<noteq> last_word_count c then [doc] else [])"
    by (rule get_completions_calls)
next
  assume "int (word_count doc) = last_word_count c"
  then show "get_completions sl word_gen doc c
          = (c, [], Inr (yield_completions sl (word_cache c) doc))"
    by (rule get_completions_same)
next
  assume "int (word_count doc) \<noteq> last_word_count c \<and> word_gen doc = Inr ws"
  then show "get_completions sl word_gen doc c
          = (c\<lparr>word_cache := ws, last_word_count := int (word_count doc)\<rparr>, [doc],
             Inr (yield_completions sl ws doc))"
    by (simp add: get_completions_returns)
next
  assume "int (word_count doc) \<noteq> last_word_count c \<and> word_gen doc = Inl e"
  then show "get_completions sl word_gen doc c = (c, [doc], Inl e)"
    by (simp add: get_completions_raises)
next
  show "map text' (yield_completions sl wrds doc)
        = filter (\<lambda>a. contains (sl (word_before_cursor doc)) (sl a)) wrds"
    by (rule yield_completions_texts)
next
  assume a: "(\<forall>d \<in> set docs. \<not> isl (word_gen d)) \<and> i < length docs"
  then have r: "\<forall>d \<in> set docs. \<not> isl (word_gen d)" and i: "i < length docs"
    by simp_all
  have "int (word_count (docs ! 0)) \<noteq> last_word_count completer_init"
    by (simp add: completer_init_def)
  with requests_calls [OF r i, of sl completer_init]
  show "fst (fst (requests sl word_gen docs completer_init) ! i) =
          (if i = 0 \<or> word_count (docs ! i) \<noteq> word_count (docs ! (i - 1))
           then [docs ! i] else [])"
    by (cases "i = 0") simp_all
next
  assume a: "int (word_count doc) \<noteq> last_word_count c \<and> word_gen doc = Inr ws
        \<and> word_count doc2 = word_count doc"
  let ?c1 = "c\<lparr>word_cache := ws, last_word_count := int (word_count doc)\<rparr>"
  have 1: "get_completions sl word_gen doc c = (?c1, [doc], Inr (yield_completions sl ws doc))"
    using a by (simp add: get_completions_returns)
  have "int (word_count doc2) = last_word_count ?c1"
    using a by simp
  then have 2: "get_completions sl word_gen doc2 ?c1
      = (?c1, [], Inr (yield_completions sl (word_cache ?c1) doc2))"
    by (rule get_completions_same)
  show "fst (requests sl word_gen [doc, doc2] c)
          = [([doc], Inr (yield_completions sl ws doc)),
             ([], Inr (yield_completions sl ws doc2))]"
    by (simp add: 1 2)
qed

theorem word_source_called_on_stored_count_change_witness:
  "fst (requests ascii_lower (\<lambda>d. Inr [''quit'', ''ls'', ''cd''])
      [\<lparr>current_line = ''c'', word_before_cursor = ''c''\<rparr>,
       \<lparr>current_line = ''cD'', word_before_cursor = ''cD''\<rparr>]
      completer_init)
   = [([\<lparr>current_line = ''c'', word_before_cursor = ''c''\<rparr>],
       Inr [\<lparr>text' = ''cd'', start_position = - 1, display = ''cd'', display_meta = []\<rparr>]),
      ([],
       Inr [\<lparr>text' = ''cd'', start_position = - 2, display = ''cd'', display_meta = []\<rparr>])]"
proof -
  let ?wg = "\<lambda>d::document. Inr [''quit'', ''ls'', ''cd''] :: error + string list"
  let ?d1 = "\<lparr>current_line = ''c'', word_before_cursor = ''c''\<rparr>"
  let ?d2 = "\<lparr>current_line = ''cD'', word_before_cursor = ''cD''\<rparr>"
  have h: "int (word_count ?d1) \<noteq> last_word_count completer_init
      \<and> ?wg ?d1 = Inr [''quit'', ''ls'', ''cd'']
      \<and> word_count ?d2 = word_count ?d1"
    by (simp add: word_count_def completer_init_def)
  have low: "ascii_lower ''c'' = ''c''" "ascii_lower ''cD'' = ''cd''"
    "ascii_lower ''quit'' = ''quit''" "ascii_lower ''ls'' = ''ls''" "ascii_lower ''cd'' = ''cd''"
    by code_simp+
  have y1: "yield_completions ascii_lower [''quit'', ''ls'', ''cd''] ?d1
      = [\<lparr>text' = ''cd'', start_position = - 1, display = ''cd'', display_meta = []\<rparr>]"
    by (simp add: yield_completions_def Let_def low)
  have y2: "yield_completions ascii_lower [''quit'', ''ls'', ''cd''] ?d2
      = [\<lparr>text' = ''cd'', start_position = - 2, display = ''cd'', display_meta = []\<rparr>]"
    by (simp add: yield_completions_def Let_def low)
  have "fst (requests ascii_lower ?wg [?d1, ?d2] completer_init)
          = [([?d1], Inr (yield_completions ascii_lower [''quit'', ''ls'', ''cd''] ?d1)),
             ([], Inr (yield_completions ascii_lower [''quit'', ''ls'', ''cd''] ?d2))]"
    by (rule word_source_called_on_stored_count_change
        [THEN conjunct2, THEN conjunct2, THEN conjunct2, THEN conjunct2, THEN conjunct2,
          THEN conjunct2, THEN mp, OF h])
  then show ?thesis
    by (simp only: y1 y2)
qed

text \<open>
  The claim as first stated fails when the word source raises. Two requests whose lines
  have the same number of pieces, the first on a line for which the listing fails: the
  count is not stored, so the word source is called again on the second.
\<close>

theorem word_source_called_again_counterexample:
  "word_count \<lparr>current_line = ''cd '', word_before_cursor = []\<rparr>
     = word_count \<lparr>current_line = ''cd a'', word_before_cursor = ''a''\<rparr>
   \<and> map fst (fst (requests ascii_lower
        (\<lambda>d. if current_line d = ''cd '' then Inl (IOError ''timed out'') else Inr [''a''])
        [\<lparr>current_line = ''cd '', word_before_cursor = []\<rparr>,
         \<lparr>current_line = ''cd a'', word_before_cursor = ''a''\<rparr>]
        completer_init))
     = [[\<lparr>current_line = ''cd '', word_before_cursor = []\<rparr>],
        [\<lparr>current_line = ''cd a'', word_before_cursor = ''a''\<rparr>]]"
  by (simp add: word_count_def get_completions_def refresh_cache_def completer_init_def)

end
